theory Spec2Isabelle
  imports Complex_Main "HOL-Library.Product_Lexorder" "HOL-Library.Multiset"
begin

section \<open>Team documents (the Team model with its version field)\<close>

text \<open>
  A JavaScript Number is NaN or a real number here. Comparisons, assignments and the
  control flow are those of the code for every finite double. Sums and differences are
  those of the code only where double arithmetic does not round: every fact below that
  rests on arithmetic is evaluated at small whole numbers or stated for whole numbers
  between 0 and \<open>2^50\<close> (\<open>exactNumber\<close>), whose sums of five stay below \<open>2^53\<close>. The
  infinities, which the validation of \<open>atomicUpdateScore\<close> lets pass, have no value here.
\<close>

datatype jsnumber = NaN | Num real

definition exactNumber :: "real \<Rightarrow> bool" where
  "exactNumber x = (of_int \<lfloor>x\<rfloor> = x \<and> 0 \<le> x \<and> x \<le> 2 ^ 50)"

definition exactValue :: "jsnumber \<Rightarrow> bool" where
  "exactValue v = (case v of NaN \<Rightarrow> True | Num x \<Rightarrow> exactNumber x)"

text \<open>
  The schema: \<open>name\<close>, five score fields (Number, default 0, min 0), \<open>total\<close>, \<open>version\<close>
  and, by \<open>timestamps: true\<close>, the creation time. \<open>team_id\<close> is the document's \<open>_id\<close>,
  \<open>total_score\<close> its \<open>total\<close>. The \<open>updatedAt\<close> bookkeeping of the library is not
  read anywhere in the repository and is left out.
\<close>

record team =
  team_id :: nat
  name :: string
  madLudo :: real
  treasureHunt :: real
  spaceRoulette :: real
  cosmicJump :: real
  spaceColosseum :: real
  total_score :: real
  version :: int
  createdAt :: nat

datatype scoreField = MadLudo | TreasureHunt | SpaceRoulette | CosmicJump | SpaceColosseum

fun fieldName :: "scoreField \<Rightarrow> string" where
  "fieldName MadLudo = ''madLudo''"
| "fieldName TreasureHunt = ''treasureHunt''"
| "fieldName SpaceRoulette = ''spaceRoulette''"
| "fieldName CosmicJump = ''cosmicJump''"
| "fieldName SpaceColosseum = ''spaceColosseum''"

definition scoreFields :: "scoreField list" where
  "scoreFields = [MadLudo, TreasureHunt, SpaceRoulette, CosmicJump, SpaceColosseum]"

text \<open>\<open>validFields\<close> of \<open>atomicUpdateScore\<close> (and \<open>scoreFields\<close> of the PATCH route).\<close>

definition validFields :: "string list" where
  "validFields = map fieldName scoreFields"

text \<open>\<open>validFields.includes(field)\<close>, returning the field the name denotes.\<close>

definition lookupField :: "string \<Rightarrow> scoreField option" where
  "lookupField s = find (\<lambda>f. fieldName f = s) scoreFields"

text \<open>\<open>doc[field]\<close> and \<open>$set: { [field]: v }\<close> for a valid field.\<close>

fun getField :: "scoreField \<Rightarrow> team \<Rightarrow> real" where
  "getField MadLudo t = madLudo t"
| "getField TreasureHunt t = treasureHunt t"
| "getField SpaceRoulette t = spaceRoulette t"
| "getField CosmicJump t = cosmicJump t"
| "getField SpaceColosseum t = spaceColosseum t"

fun setField :: "scoreField \<Rightarrow> real \<Rightarrow> team \<Rightarrow> team" where
  "setField MadLudo v t = t\<lparr>madLudo := v\<rparr>"
| "setField TreasureHunt v t = t\<lparr>treasureHunt := v\<rparr>"
| "setField SpaceRoulette v t = t\<lparr>spaceRoulette := v\<rparr>"
| "setField CosmicJump v t = t\<lparr>cosmicJump := v\<rparr>"
| "setField SpaceColosseum v t = t\<lparr>spaceColosseum := v\<rparr>"

text \<open>The sum the pre-save hook assigns to \<open>total\<close>.\<close>

definition sumFields :: "team \<Rightarrow> real" where
  "sumFields t = madLudo t + treasureHunt t + spaceRoulette t + cosmicJump t + spaceColosseum t"

text \<open>A document whose five scores are in the range where the arithmetic is exact.\<close>

definition exactTeam :: "team \<Rightarrow> bool" where
  "exactTeam t = list_all (\<lambda>f. exactNumber (getField f t)) scoreFields"

section \<open>The collection and its operations\<close>

text \<open>The collection is the list of its documents, in insertion order.\<close>

type_synonym store = "team list"

definition findById :: "nat \<Rightarrow> store \<Rightarrow> team option" where
  "findById i db = find (\<lambda>t. team_id t = i) db"

text \<open>
  \<open>findOneAndUpdate(filter, update, {new: true})\<close>: one atomic operation of the database.
  The first document that matches the filter is replaced by its update and returned as
  updated; with no match the collection is unchanged and the result is null.
\<close>

fun findOneAndUpdate :: "(team \<Rightarrow> bool) \<Rightarrow> (team \<Rightarrow> team) \<Rightarrow> store \<Rightarrow> store \<times> team option" where
  "findOneAndUpdate p u [] = ([], None)"
| "findOneAndUpdate p u (t # ts) =
     (if p t then (u t # ts, Some (u t))
      else (case findOneAndUpdate p u ts of (ts', r) \<Rightarrow> (t # ts', r)))"

datatype error =
    InvalidField      \<comment> \<open>\<open>Invalid field for update\<close>\<close>
  | InvalidValue      \<comment> \<open>\<open>Invalid score value\<close>\<close>
  | NotFound          \<comment> \<open>\<open>Team not found\<close>\<close>
  | Conflict          \<comment> \<open>\<open>CONFLICT: Score was updated by another user. ...\<close>\<close>
  | ValidationError   \<comment> \<open>a schema validator rejected a saved document\<close>
  | DuplicateKey      \<comment> \<open>the unique index on \<open>name\<close> rejected a write\<close>
  | ReferenceError    \<comment> \<open>an identifier that is not in scope was evaluated\<close>

subsection \<open>atomicUpdateScore\<close>

text \<open>
  The first part of \<open>atomicUpdateScore\<close>: the two validations and the read
  \<open>await this.findById(teamId)\<close>. The fourth parameter \<open>currentVersion\<close> is declared by the
  function and used nowhere in its body; the callers pass three arguments, so it is
  \<open>undefined\<close> (\<open>None\<close>) in every call the server makes.
\<close>

definition atomicUpdateScore_read ::
  "store \<Rightarrow> nat \<Rightarrow> string \<Rightarrow> jsnumber \<Rightarrow> int option \<Rightarrow> error + (scoreField \<times> real \<times> team)" where
  "atomicUpdateScore_read db teamId field newValue currentVersion =
     (case lookupField field of
        None \<Rightarrow> Inl InvalidField
      | Some f \<Rightarrow>
          (case newValue of
             NaN \<Rightarrow> Inl InvalidValue
           | Num v \<Rightarrow>
               if v < 0 then Inl InvalidValue
               else (case findById teamId db of
                       None \<Rightarrow> Inl NotFound
                     | Some currentTeam \<Rightarrow> Inr (f, v, currentTeam))))"

text \<open>
  The second part: \<open>oldValue\<close>, \<open>difference\<close> and the conditional write
  \<open>await this.findOneAndUpdate({_id, version: currentTeam.version}, {$set, $inc}, ...)\<close>.
  The update validator (\<open>min: 0\<close> on the \<open>$set\<close> path) cannot fail, the value having
  passed the check above.
\<close>

definition atomicUpdateScore_write ::
  "store \<Rightarrow> nat \<Rightarrow> scoreField \<Rightarrow> real \<Rightarrow> team \<Rightarrow> store \<times> (error + team)" where
  "atomicUpdateScore_write db teamId f newValue currentTeam =
     (let oldValue = getField f currentTeam;
          difference = newValue - oldValue
      in case findOneAndUpdate
                (\<lambda>t. team_id t = teamId \<and> version t = version currentTeam)
                (\<lambda>t. (setField f newValue t)
                        \<lparr>total_score := total_score t + difference, version := version t + 1\<rparr>)
                db of
           (db', None) \<Rightarrow> (db', Inl Conflict)
         | (db', Some result) \<Rightarrow> (db', Inr result))"

text \<open>
  The whole function. It awaits the database twice, so handlers of other requests run
  between its read and its write: \<open>interleaved\<close> is what their committed writes do to the
  collection in between (\<open>id\<close> when nothing else runs).
\<close>

definition atomicUpdateScore ::
  "(store \<Rightarrow> store) \<Rightarrow> store \<Rightarrow> nat \<Rightarrow> string \<Rightarrow> jsnumber \<Rightarrow> int option \<Rightarrow> store \<times> (error + team)" where
  "atomicUpdateScore interleaved db teamId field newValue currentVersion =
     (case atomicUpdateScore_read db teamId field newValue currentVersion of
        Inl e \<Rightarrow> (db, Inl e)
      | Inr (f, v, currentTeam) \<Rightarrow> atomicUpdateScore_write (interleaved db) teamId f v currentTeam)"

subsection \<open>The save path: assignment, the pre-save hook, the write\<close>

text \<open>
  The body of a PATCH request after JSON parsing: the value under the key \<open>name\<close>, if
  any, and the other keys in the order of \<open>Object.keys\<close> (no key twice, as in every
  parsed object), each with its value as a Number.
\<close>

record patchBody =
  bodyName :: "string option"
  bodyScores :: "(string \<times> jsnumber) list"

text \<open>
  The schema's \<open>trim: true\<close> on \<open>name\<close>, which is \<open>String.prototype.trim\<close>. A \<open>char\<close> is
  a code unit below 256; of the code units that \<open>trim\<close> strips, these are the ones in
  that range: tab, line feed, vertical tab, form feed, carriage return, space and the
  no-break space.
\<close>

definition isSpace :: "char \<Rightarrow> bool" where
  "isSpace c =
     (c = CHR 0x09 \<or> c = CHR 0x0A \<or> c = CHR 0x0B \<or> c = CHR 0x0C \<or> c = CHR 0x0D
      \<or> c = CHR 0x20 \<or> c = CHR 0xA0)"

definition trim :: "string \<Rightarrow> string" where
  "trim s = rev (dropWhile isSpace (rev (dropWhile isSpace s)))"

text \<open>
  \<open>Object.assign(team, updateFields)\<close> on the loaded document, \<open>updateFields\<close> holding
  the keys of the body that are in \<open>allowedFields\<close>; every other key is dropped. A score
  that is not a number, or negative, is what the schema (\<open>type: Number, min: 0\<close>)
  rejects when the document is saved; nothing happens between the assignment and that
  validation, so the rejection is returned here.
\<close>

fun assignScores :: "(string \<times> jsnumber) list \<Rightarrow> team \<Rightarrow> error + team" where
  "assignScores [] t = Inr t"
| "assignScores ((k, v) # kvs) t =
     (case lookupField k of
        None \<Rightarrow> assignScores kvs t
      | Some f \<Rightarrow>
          (case v of
             NaN \<Rightarrow> Inl ValidationError
           | Num x \<Rightarrow> if x < 0 then Inl ValidationError else assignScores kvs (setField f x t)))"

definition assignUpdates :: "patchBody \<Rightarrow> team \<Rightarrow> error + team" where
  "assignUpdates b t =
     assignScores (bodyScores b)
       (case bodyName b of None \<Rightarrow> t | Some n \<Rightarrow> t\<lparr>name := trim n\<rparr>)"

text \<open>
  \<open>this.isModified([...five score fields...])\<close>: a path is modified when its value
  differs from the loaded one.
\<close>

definition isModified :: "team \<Rightarrow> team \<Rightarrow> bool" where
  "isModified loaded doc = list_ex (\<lambda>f. getField f doc \<noteq> getField f loaded) scoreFields"

text \<open>The hook \<open>teamSchema.pre('save')\<close>.\<close>

definition preSave :: "bool \<Rightarrow> team \<Rightarrow> team \<Rightarrow> team" where
  "preSave isNew loaded doc =
     (if isNew \<or> isModified loaded doc then doc\<lparr>total_score := sumFields doc\<rparr> else doc)"

text \<open>
  \<open>save()\<close> writes the modified paths of the document, and only those, to the stored
  document of the same \<open>_id\<close>. \<open>version\<close> and \<open>createdAt\<close> are never assigned by the
  server, so never written here.
\<close>

definition writeModified :: "team \<Rightarrow> team \<Rightarrow> team \<Rightarrow> team" where
  "writeModified loaded doc stored =
     stored\<lparr>name := (if name doc \<noteq> name loaded then name doc else name stored),
            madLudo := (if madLudo doc \<noteq> madLudo loaded then madLudo doc else madLudo stored),
            treasureHunt :=
              (if treasureHunt doc \<noteq> treasureHunt loaded then treasureHunt doc else treasureHunt stored),
            spaceRoulette :=
              (if spaceRoulette doc \<noteq> spaceRoulette loaded then spaceRoulette doc else spaceRoulette stored),
            cosmicJump := (if cosmicJump doc \<noteq> cosmicJump loaded then cosmicJump doc else cosmicJump stored),
            spaceColosseum :=
              (if spaceColosseum doc \<noteq> spaceColosseum loaded then spaceColosseum doc
               else spaceColosseum stored),
            total_score :=
              (if total_score doc \<noteq> total_score loaded then total_score doc else total_score stored)\<rparr>"

text \<open>
  \<open>await team.save()\<close> for a loaded document: validation (\<open>name\<close> is required), the
  pre-save hook, then the write, which the unique index on \<open>name\<close> can refuse. It returns
  the collection and the document as saved.
\<close>

definition save :: "store \<Rightarrow> team \<Rightarrow> team \<Rightarrow> error + (store \<times> team)" where
  "save db loaded doc =
     (if name doc = [] then Inl ValidationError
      else
        (let doc' = preSave False loaded doc in
         if name doc' \<noteq> name loaded
            \<and> list_ex (\<lambda>t. team_id t \<noteq> team_id doc' \<and> name t = name doc') db
         then Inl DuplicateKey
         else Inr (fst (findOneAndUpdate (\<lambda>t. team_id t = team_id doc')
                          (writeModified loaded doc') db), doc')))"

section \<open>The server (server.js)\<close>

subsection \<open>Ranked snapshots\<close>

text \<open>
  \<open>getLeaderboard\<close>: \<open>Team.find().sort({ total: -1, createdAt: 1 })\<close>, then the rank
  \<open>index + 1\<close>. A pair \<open>(team, rank)\<close> is the object \<open>{...team, rank}\<close>. Documents equal
  in both sort keys keep their collection order.
\<close>

definition getLeaderboard :: "store \<Rightarrow> (team \<times> nat) list" where
  "getLeaderboard db =
     (let teams = sort_key (\<lambda>t. (- total_score t, createdAt t)) db
      in map (\<lambda>(team, index). (team, index + 1)) (zip teams [0..<length teams]))"

subsection \<open>State\<close>

datatype message =
    LeaderboardUpdated "(team \<times> nat) list"
  | UpdateSuccess nat string real team nat
      \<comment> \<open>\<open>teamId\<close>, \<open>field\<close>, \<open>value\<close>, \<open>team\<close>, \<open>attempts\<close>\<close>
  | UpdateError error nat string nat int nat
      \<comment> \<open>\<open>message\<close>, \<open>teamId\<close>, \<open>field\<close>, \<open>retryCount\<close>, \<open>connections\<close>, \<open>updatesPerSecond\<close>\<close>
  | Pong nat int nat

datatype logLine =
    ScoreUpdated nat           \<comment> \<open>\<open>Score updated: ... (attempt n)\<close>\<close>
  | ErrorUpdating nat error    \<comment> \<open>\<open>Error updating score (attempt n): message\<close>\<close>

text \<open>
  The module's variables, the collection, and what the runtime holds for it: the timers
  set by \<open>debouncedBroadcast\<close> that have neither fired nor been cleared (handle and fire
  time), the connected sockets, the messages emitted (recipient and message) and the
  console. \<open>exited\<close> says that the process has ended: no handler runs after that, and
  the handlers below are those of a running process.
\<close>

record server =
  teams :: store
  broadcastTimeout :: "nat option"
  activeConnections :: int
  totalUpdatesPerSecond :: nat
  updateCounter :: nat
  timers :: "(nat \<times> nat) list"
  nextTimer :: nat
  connected :: "nat list"
  sent :: "(nat \<times> message) list"
  console :: "logLine list"
  exited :: bool

definition BROADCAST_DELAY :: nat where
  "BROADCAST_DELAY = 100"

definition MAX_RETRIES :: nat where
  "MAX_RETRIES = 5"

subsection \<open>The broadcast debouncer\<close>

definition clearTimeout :: "nat \<Rightarrow> (nat \<times> nat) list \<Rightarrow> (nat \<times> nat) list" where
  "clearTimeout h ts = filter (\<lambda>(h', due). h' \<noteq> h) ts"

text \<open>
  \<open>debouncedBroadcast\<close> at time \<open>now\<close>: clear the timer whose handle is in
  \<open>broadcastTimeout\<close>, if the variable is not null, and set a new one.
\<close>

definition debouncedBroadcast :: "nat \<Rightarrow> server \<Rightarrow> server" where
  "debouncedBroadcast now s =
     (let ts = (case broadcastTimeout s of
                  Some h \<Rightarrow> clearTimeout h (timers s)
                | None \<Rightarrow> timers s);
          h' = nextTimer s
      in s\<lparr>timers := ts @ [(h', now + BROADCAST_DELAY)],
           nextTimer := h' + 1,
           broadcastTimeout := Some h'\<rparr>)"

text \<open>\<open>io.emit\<close>: the message goes to every connected socket.\<close>

definition ioEmit :: "message \<Rightarrow> server \<Rightarrow> server" where
  "ioEmit m s = s\<lparr>sent := sent s @ map (\<lambda>c. (c, m)) (connected s)\<rparr>"

definition socketEmit :: "nat \<Rightarrow> message \<Rightarrow> server \<Rightarrow> server" where
  "socketEmit sock m s = s\<lparr>sent := sent s @ [(sock, m)]\<rparr>"

text \<open>
  The timer callback set by \<open>debouncedBroadcast\<close>, for the timer \<open>h\<close> when it is due at
  \<open>now\<close>. The callback awaits \<open>broadcastLeaderboard()\<close>, which queries the database at once
  and emits when the answer is there: \<open>during\<close> is what the handlers of other events do
  while it waits. \<open>dbOk = False\<close> is a failing query, which \<open>broadcastLeaderboard\<close>
  catches and logs. Only after the await is \<open>broadcastTimeout\<close> set to null.
\<close>

definition timerFire :: "(server \<Rightarrow> server) \<Rightarrow> bool \<Rightarrow> nat \<Rightarrow> nat \<Rightarrow> server \<Rightarrow> server" where
  "timerFire during dbOk now h s =
     (if list_ex (\<lambda>(h', due). h' = h \<and> due \<le> now) (timers s)
      then
        (let s0 = s\<lparr>timers := clearTimeout h (timers s)\<rparr>;
             leaderboard = (if dbOk then Some (getLeaderboard (teams s0)) else None);
             s1 = during s0;
             s2 = (case leaderboard of
                     Some lb \<Rightarrow> ioEmit (LeaderboardUpdated lb) s1
                   | None \<Rightarrow> s1)
         in s2\<lparr>broadcastTimeout := None\<rparr>)
      else s)"

subsection \<open>Connections and the load counters\<close>

text \<open>\<open>io.on('connection')\<close>: count the socket and send it the current leaderboard.\<close>

definition connection :: "nat \<Rightarrow> server \<Rightarrow> server" where
  "connection sock s =
     (let s1 = s\<lparr>activeConnections := activeConnections s + 1,
                 connected := connected s @ [sock]\<rparr>
      in socketEmit sock (LeaderboardUpdated (getLeaderboard (teams s1))) s1)"

text \<open>\<open>socket.on('disconnect')\<close>: the handler decrements the counter and logs.\<close>

definition disconnect :: "nat \<Rightarrow> server \<Rightarrow> server" where
  "disconnect sock s =
     s\<lparr>activeConnections := activeConnections s - 1,
       connected := removeAll sock (connected s)\<rparr>"

text \<open>The \<open>setInterval\<close> callback, every second.\<close>

definition tick :: "server \<Rightarrow> server" where
  "tick s = s\<lparr>totalUpdatesPerSecond := updateCounter s, updateCounter := 0\<rparr>"

definition ping :: "nat \<Rightarrow> nat \<Rightarrow> server \<Rightarrow> server" where
  "ping now sock s =
     socketEmit sock (Pong now (activeConnections s) (totalUpdatesPerSecond s)) s"

subsection \<open>The socket event updateScore\<close>

text \<open>The event's data \<open>{teamId, field, value}\<close>, \<open>numValue\<close> being \<open>Number(value)\<close>.\<close>

record updateData =
  dataTeamId :: nat
  dataField :: string
  numValue :: jsnumber

datatype outcome = Resolved | Rejected error

text \<open>
  The \<open>catch\<close> block of \<open>attemptUpdate\<close>. \<open>teamId\<close>, \<open>field\<close> and \<open>value\<close> are declared
  by \<open>const\<close> inside the \<open>try\<close> block, so they are not in scope here, and no enclosing
  scope declares them. The block logs the error (that line reads \<open>retryCount\<close> and
  \<open>error.message\<close> only). Then, for a conflict with retries left, it increments
  \<open>retryCount\<close> and evaluates \<open>field\<close> in the next log line, before \<open>setTimeout\<close>;
  otherwise it evaluates \<open>teamId\<close> in the argument of \<open>socket.emit('updateError', ...)\<close>,
  before the call. Either evaluation raises ReferenceError, and the promise of
  \<open>attemptUpdate\<close> is rejected. Only the conflict message contains \<open>CONFLICT\<close>.
\<close>

definition catchBlock :: "error \<Rightarrow> nat \<Rightarrow> server \<Rightarrow> server \<times> nat \<times> outcome" where
  "catchBlock err retryCount s =
     (let s1 = s\<lparr>console := console s @ [ErrorUpdating (retryCount + 1) err]\<rparr>
      in if err = Conflict \<and> retryCount < MAX_RETRIES
         then (s1, retryCount + 1, Rejected ReferenceError)
         else (s1, retryCount, Rejected ReferenceError))"

text \<open>
  \<open>attemptUpdate\<close>, called with the handler's \<open>retryCount\<close>; it returns the server, the
  new \<open>retryCount\<close> and how its promise settles. The awaited call
  \<open>Team.atomicUpdateScore(teamId, field, numValue)\<close> is written as its two parts, the
  handlers of other events (\<open>during\<close>) running between the read and the write.
\<close>

definition attemptUpdate ::
  "(server \<Rightarrow> server) \<Rightarrow> nat \<Rightarrow> nat \<Rightarrow> updateData \<Rightarrow> nat \<Rightarrow> server \<Rightarrow> server \<times> nat \<times> outcome" where
  "attemptUpdate during now sock data retryCount s =
     (case atomicUpdateScore_read (teams s) (dataTeamId data) (dataField data) (numValue data) None of
        Inl err \<Rightarrow> catchBlock err retryCount s
      | Inr (f, v, currentTeam) \<Rightarrow>
          (let s1 = during s
           in case atomicUpdateScore_write (teams s1) (dataTeamId data) f v currentTeam of
                (db', Inr updatedTeam) \<Rightarrow>
                  (let s2 = s1\<lparr>teams := db',
                               console := console s1 @ [ScoreUpdated (retryCount + 1)]\<rparr>;
                       s3 = debouncedBroadcast now s2
                   in (socketEmit sock
                         (UpdateSuccess (dataTeamId data) (dataField data) v updatedTeam (retryCount + 1)) s3,
                       retryCount, Resolved))
              | (db', Inl err) \<Rightarrow> catchBlock err retryCount (s1\<lparr>teams := db'\<rparr>)))"

text \<open>
  The handler \<open>socket.on('updateScore')\<close>: \<open>retryCount = 0\<close>, \<open>updateCounter++\<close>,
  \<open>await attemptUpdate()\<close>. The handler is an async function with no \<open>try\<close> around
  that await, so a rejection of \<open>attemptUpdate\<close> rejects the handler's own promise.
  Nothing handles that promise and the server installs no handler for unhandled
  rejections: the process ends, in the state returned.
\<close>

definition updateScore ::
  "(server \<Rightarrow> server) \<Rightarrow> nat \<Rightarrow> nat \<Rightarrow> updateData \<Rightarrow> server \<Rightarrow> server \<times> nat \<times> outcome" where
  "updateScore during now sock data s =
     (case attemptUpdate during now sock data 0 (s\<lparr>updateCounter := updateCounter s + 1\<rparr>) of
        (s', retryCount, Resolved) \<Rightarrow> (s', retryCount, Resolved)
      | (s', retryCount, Rejected err) \<Rightarrow> (s'\<lparr>exited := True\<rparr>, retryCount, Rejected err))"

subsection \<open>The REST routes\<close>

datatype response =
    Json nat team                  \<comment> \<open>status and the document\<close>
  | JsonRanking "(team \<times> nat) list"
  | JsonError nat error            \<comment> \<open>status and \<open>{error: message}\<close>\<close>

text \<open>\<open>GET /api/teams\<close>.\<close>

definition getTeams :: "server \<Rightarrow> response" where
  "getTeams s = JsonRanking (getLeaderboard (teams s))"

text \<open>\<open>!nameUpdate\<close>: an absent or empty name is falsy.\<close>

definition noNameUpdate :: "patchBody \<Rightarrow> bool" where
  "noNameUpdate b = (case bodyName b of None \<Rightarrow> True | Some n \<Rightarrow> n = [])"

text \<open>
  The second branch of \<open>PATCH /api/teams/:id\<close> ("multiple fields or name update - use
  traditional method"): load, assign the allowed keys, save, schedule the broadcast.
  The load and the save are taken together.
\<close>

definition patchSave :: "nat \<Rightarrow> nat \<Rightarrow> patchBody \<Rightarrow> server \<Rightarrow> server \<times> response" where
  "patchSave now ident b s =
     (case findById ident (teams s) of
        None \<Rightarrow> (s, JsonError 404 NotFound)
      | Some team \<Rightarrow>
          (case assignUpdates b team of
             Inl err \<Rightarrow> (s, JsonError 500 err)
           | Inr doc \<Rightarrow>
               (case save (teams s) team doc of
                  Inl err \<Rightarrow> (s, JsonError 500 err)
                | Inr (db', saved) \<Rightarrow>
                    (debouncedBroadcast now (s\<lparr>teams := db'\<rparr>), Json 200 saved))))"

text \<open>
  \<open>PATCH /api/teams/:id\<close>. Exactly one score key and no name: the atomic method, called
  with three arguments (\<open>interleaved\<close> as in \<open>atomicUpdateScore\<close>); a conflict is
  answered 409, any other error 500. Anything else: the second branch.
\<close>

definition patchTeam ::
  "(store \<Rightarrow> store) \<Rightarrow> nat \<Rightarrow> nat \<Rightarrow> patchBody \<Rightarrow> server \<Rightarrow> server \<times> response" where
  "patchTeam interleaved now ident b s =
     (case filter (\<lambda>(key, value). key \<in> set validFields) (bodyScores b) of
        [(field, value)] \<Rightarrow>
          if noNameUpdate b
          then
            (case atomicUpdateScore interleaved (teams s) ident field value None of
               (db', Inr updatedTeam) \<Rightarrow>
                 (debouncedBroadcast now (s\<lparr>teams := db'\<rparr>), Json 200 updatedTeam)
             | (db', Inl err) \<Rightarrow>
                 (s\<lparr>teams := db'\<rparr>,
                  if err = Conflict then JsonError 409 err else JsonError 500 err))
          else patchSave now ident b s
      | scoreUpdates \<Rightarrow> patchSave now ident b s)"

section \<open>Example data\<close>

text \<open>A document with the schema's defaults, as \<open>new Team({ name })\<close> is saved.\<close>

definition defaultTeam :: "nat \<Rightarrow> string \<Rightarrow> nat \<Rightarrow> team" where
  "defaultTeam i n c =
     \<lparr>team_id = i, name = n, madLudo = 0, treasureHunt = 0, spaceRoulette = 0,
      cosmicJump = 0, spaceColosseum = 0, total_score = 0, version = 0, createdAt = c\<rparr>"

text \<open>The module's variables as initialised, over a collection.\<close>

definition idleServer :: "store \<Rightarrow> server" where
  "idleServer db =
     \<lparr>teams = db, broadcastTimeout = None, activeConnections = 0,
      totalUpdatesPerSecond = 0, updateCounter = 0, timers = [], nextTimer = 0,
      connected = [], sent = [], console = [], exited = False\<rparr>"

text \<open>Team A (total 10, created first) and team B (total 20), B stored first.\<close>

definition teamA :: team where
  "teamA = (defaultTeam 1 ''A'' 1)\<lparr>madLudo := 10, total_score := 10\<rparr>"

definition teamB :: team where
  "teamB = (defaultTeam 2 ''B'' 2)\<lparr>treasureHunt := 20, total_score := 20\<rparr>"

text \<open>
  A PATCH body with two score keys, and what that request, handled between the read and
  the write of an update of team 1, does to the collection.
\<close>

definition twoFieldPatch :: patchBody where
  "twoFieldPatch = \<lparr>bodyName = None, bodyScores = [(''madLudo'', Num 5), (''treasureHunt'', Num 3)]\<rparr>"

definition patchBetween :: "store \<Rightarrow> store" where
  "patchBetween db = teams (fst (patchTeam id 0 1 twoFieldPatch (idleServer db)))"

text \<open>Another client's atomic update of team 1, committed in between.\<close>

definition otherUpdate :: "store \<Rightarrow> store" where
  "otherUpdate db = fst (atomicUpdateScore id db 1 ''treasureHunt'' (Num 3) None)"

text \<open>A PATCH body that renames the team.\<close>

definition renamePatch :: patchBody where
  "renamePatch = \<lparr>bodyName = Some ''Z'', bodyScores = []\<rparr>"

text \<open>The \<open>updateScore\<close> event of socket 9: set \<open>madLudo\<close> of team 1 to 10.\<close>

definition madLudoTo10 :: updateData where
  "madLudoTo10 = \<lparr>dataTeamId = 1, dataField = ''madLudo'', numValue = Num 10\<rparr>"

text \<open>
  What runs between the read and the write of that update: the whole \<open>updateScore\<close>
  handler of socket 8 for another field of the team, or the PATCH request above.
\<close>

definition otherClient :: "server \<Rightarrow> server" where
  "otherClient s =
     fst (updateScore id 0 8 \<lparr>dataTeamId = 1, dataField = ''treasureHunt'', numValue = Num 3\<rparr> s)"

definition patchRequest :: "server \<Rightarrow> server" where
  "patchRequest s = fst (patchTeam id 0 1 twoFieldPatch s)"


text \<open>
  A run of atomic updates of other clients (team, field, value), each with nothing in
  between; and the relation between a collection and a later one in which every
  document has kept its identity and either is unchanged or has a greater version.
\<close>

fun atomicUpdates :: "(nat \<times> string \<times> jsnumber) list \<Rightarrow> store \<Rightarrow> store" where
  "atomicUpdates [] db = db"
| "atomicUpdates ((teamId, field, newValue) # calls) db =
     atomicUpdates calls (fst (atomicUpdateScore id db teamId field newValue None))"

definition laterVersions :: "store \<Rightarrow> store \<Rightarrow> bool" where
  "laterVersions db db' =
     list_all2 (\<lambda>t t'. team_id t' = team_id t \<and> version t \<le> version t'
                  \<and> (version t' = version t \<longrightarrow> t' = t)) db db'"

section \<open>Basic facts\<close>


lemma lookupField_Some: "lookupField s = Some f \<Longrightarrow> fieldName f = s"
  by (auto simp: lookupField_def find_Some_iff)

lemma lookupField_fieldName: "lookupField (fieldName f) = Some f"
  by (cases f) (simp_all add: lookupField_def scoreFields_def)

lemma getField_setField: "getField g (setField f v t) = (if g = f then v else getField g t)"
  by (cases f; cases g) simp_all

lemma getField_other_update:
  "getField g (t\<lparr>total_score := x\<rparr>) = getField g t"
  "getField g (t\<lparr>version := y\<rparr>) = getField g t"
  "getField g (t\<lparr>name := n\<rparr>) = getField g t"
  by (cases g; simp)+

lemma sumFields_setField: "sumFields (setField f v t) = sumFields t + (v - getField f t)"
  by (cases f) (simp_all add: sumFields_def)

lemma setField_frame:
  "team_id (setField f v t) = team_id t" "name (setField f v t) = name t"
  "total_score (setField f v t) = total_score t" "version (setField f v t) = version t"
  "createdAt (setField f v t) = createdAt t"
  by (cases f; simp)+

lemma findOneAndUpdate_None:
  "findOneAndUpdate p u db = (db', None) \<Longrightarrow> db' = db \<and> \<not> list_ex p db"
  by (induction db arbitrary: db') (auto split: if_splits prod.splits)

lemma findOneAndUpdate_Some:
  "findOneAndUpdate p u db = (db', Some r) \<Longrightarrow>
     \<exists>k < length db. p (db ! k) \<and> (\<forall>j < k. \<not> p (db ! j)) \<and> r = u (db ! k) \<and> db' = db[k := r]"
proof (induction db arbitrary: db')
  case Nil
  then show ?case by simp
next
  case (Cons t ts)
  show ?case
  proof (cases "p t")
    case True
    with Cons.prems have "r = u t" "db' = u t # ts" by auto
    then have "0 < length (t # ts) \<and> p ((t # ts) ! 0) \<and> (\<forall>j < 0. \<not> p ((t # ts) ! j))
        \<and> r = u ((t # ts) ! 0) \<and> db' = (t # ts)[0 := r]"
      using True by simp
    then show ?thesis by blast
  next
    case False
    with Cons.prems obtain ts' where ts': "findOneAndUpdate p u ts = (ts', Some r)" "db' = t # ts'"
      by (auto split: prod.splits)
    from Cons.IH[OF ts'(1)] obtain k where k: "k < length ts" "p (ts ! k)" "\<forall>j < k. \<not> p (ts ! j)"
      "r = u (ts ! k)" "ts' = ts[k := r]" by blast
    have "\<forall>j < Suc k. \<not> p ((t # ts) ! j)"
      using False k(3) by (auto simp: less_Suc_eq_0_disj)
    with k ts'(2) have "Suc k < length (t # ts) \<and> p ((t # ts) ! Suc k)
        \<and> (\<forall>j < Suc k. \<not> p ((t # ts) ! j))
        \<and> r = u ((t # ts) ! Suc k) \<and> db' = (t # ts)[Suc k := r]"
      by simp
    then show ?thesis by blast
  qed
qed

lemmas store_defs = atomicUpdateScore_def atomicUpdateScore_read_def atomicUpdateScore_write_def
  lookupField_def scoreFields_def findById_def

lemmas patch_defs = patchTeam_def patchSave_def validFields_def noNameUpdate_def assignUpdates_def
  save_def preSave_def isModified_def writeModified_def sumFields_def trim_def isSpace_def

lemmas server_defs = updateScore_def attemptUpdate_def catchBlock_def debouncedBroadcast_def
  socketEmit_def ioEmit_def clearTimeout_def timerFire_def connection_def disconnect_def
  idleServer_def BROADCAST_DELAY_def MAX_RETRIES_def

lemma findById_Some_set: "findById i db = Some t \<Longrightarrow> t \<in> set db \<and> team_id t = i"
  by (auto simp: findById_def find_Some_iff)

lemma findById_None_iff: "findById i db = None \<longleftrightarrow> i \<notin> team_id ` set db"
  by (auto simp: findById_def find_None_iff)

lemma findOneAndUpdate_no_match:
  "\<not> list_ex p db \<Longrightarrow> findOneAndUpdate p u db = (db, None)"
  by (induction db) auto

lemma findOneAndUpdate_match:
  "list_ex p db \<Longrightarrow> \<exists>db' r. findOneAndUpdate p u db = (db', Some r)"
  by (induction db) (auto split: prod.splits)

lemma findOneAndUpdate_by_id:
  assumes "distinct (map team_id db)" "findById i db = Some t"
  shows "findOneAndUpdate (\<lambda>x. team_id x = i \<and> q x) u db =
           (if q t then (map (\<lambda>x. if team_id x = i then u x else x) db, Some (u t))
            else (db, None))"
  using assms
proof (induction db)
  case Nil
  then show ?case by (simp add: findById_def)
next
  case (Cons x xs)
  show ?case
  proof (cases "team_id x = i")
    case True
    with Cons.prems have t: "t = x" by (simp add: findById_def)
    from Cons.prems(1) have "team_id x \<notin> team_id ` set xs" by simp
    with True have "\<forall>y \<in> set xs. team_id y \<noteq> i" by (metis imageI)
    then have rest: "map (\<lambda>x. if team_id x = i then u x else x) xs = xs"
      and none: "\<not> list_ex (\<lambda>x. team_id x = i \<and> q x) xs"
      by (auto simp: list_ex_iff map_idI)
    show ?thesis
      using True t rest findOneAndUpdate_no_match[OF none, of u] by simp
  next
    case False
    with Cons.prems have "findById i xs = Some t" "distinct (map team_id xs)"
      by (simp_all add: findById_def)
    from Cons.IH[OF this(2) this(1)] False show ?thesis by simp
  qed
qed

lemma atomicUpdateScore_read_Inr:
  "atomicUpdateScore_read db teamId field newValue cv = Inr (f, v, cur) \<longleftrightarrow>
     lookupField field = Some f \<and> newValue = Num v \<and> 0 \<le> v \<and> findById teamId db = Some cur"
  by (auto simp: atomicUpdateScore_read_def split: option.splits jsnumber.splits)

lemma find_first:
  "find q db = Some c \<Longrightarrow> t \<in> set db \<Longrightarrow> q t \<Longrightarrow> r c \<Longrightarrow>
     \<exists>db' . findOneAndUpdate (\<lambda>x. q x \<and> r x) u db = (db', Some (u c)) \<and> set db' \<subseteq> insert (u c) (set db)"
  by (induction db) (auto split: prod.splits if_splits)

section \<open>The frame of a successful atomic update\<close>

text \<open>
  Claim C10. When \<open>atomicUpdateScore\<close> succeeds on a team, a field and a value, the
  collection differs from the one its write found (\<open>interleaved db\<close>) in exactly one
  document, the returned one, at one position \<open>k\<close>; that document has the requested
  identity, and its name, creation time, identity and the four other score fields are
  those it had; the field holds the new value and \<open>version\<close> is one more. Every other
  document is unchanged.
\<close>

theorem atomicUpdateScore_frame:
  assumes "atomicUpdateScore interleaved db teamId field newValue currentVersion = (db', Inr result)"
  shows "\<exists>k f v. k < length (interleaved db) \<and> lookupField field = Some f \<and> newValue = Num v
           \<and> team_id (interleaved db ! k) = teamId
           \<and> db' = (interleaved db)[k := result]
           \<and> team_id result = teamId
           \<and> name result = name (interleaved db ! k)
           \<and> createdAt result = createdAt (interleaved db ! k)
           \<and> (\<forall>g. g \<noteq> f \<longrightarrow> getField g result = getField g (interleaved db ! k))
           \<and> getField f result = v
           \<and> version result = version (interleaved db ! k) + 1"
proof -
  from assms obtain f v cur where
    rd: "atomicUpdateScore_read db teamId field newValue currentVersion = Inr (f, v, cur)"
    and wr: "atomicUpdateScore_write (interleaved db) teamId f v cur = (db', Inr result)"
    by (auto simp: atomicUpdateScore_def split: sum.splits)
  from rd have f: "lookupField field = Some f" and v: "newValue = Num v"
    by (auto simp: atomicUpdateScore_read_def split: option.splits jsnumber.splits if_splits)
  let ?u = "\<lambda>t. (setField f v t)\<lparr>total_score := total_score t + (v - getField f cur),
                                  version := version t + 1\<rparr>"
  from wr have "findOneAndUpdate (\<lambda>t. team_id t = teamId \<and> version t = version cur) ?u
                  (interleaved db) = (db', Some result)"
    by (auto simp: atomicUpdateScore_write_def Let_def split: prod.splits option.splits)
  from findOneAndUpdate_Some[OF this] obtain k where
    k: "k < length (interleaved db)" "team_id (interleaved db ! k) = teamId"
       "result = ?u (interleaved db ! k)" "db' = (interleaved db)[k := result]"
    by blast
  have "team_id result = teamId" "name result = name (interleaved db ! k)"
       "createdAt result = createdAt (interleaved db ! k)"
       "\<forall>g. g \<noteq> f \<longrightarrow> getField g result = getField g (interleaved db ! k)"
       "getField f result = v" "version result = version (interleaved db ! k) + 1"
    using k(2) by (simp_all add: k(3) setField_frame getField_setField getField_other_update)
  with k f v show ?thesis by blast
qed

theorem atomicUpdateScore_frame_witness:
  "atomicUpdateScore id [teamB, teamA] 1 ''madLudo'' (Num 20) None =
     ([teamB, teamA\<lparr>madLudo := 20, total_score := 20, version := 1\<rparr>],
      Inr (teamA\<lparr>madLudo := 20, total_score := 20, version := 1\<rparr>))
   \<and> (\<exists>k f v. k < length [teamB, teamA] \<and> lookupField ''madLudo'' = Some f \<and> Num 20 = Num v
           \<and> team_id ([teamB, teamA] ! k) = 1
           \<and> [teamB, teamA\<lparr>madLudo := 20, total_score := 20, version := 1\<rparr>]
               = [teamB, teamA][k := teamA\<lparr>madLudo := 20, total_score := 20, version := 1\<rparr>]
           \<and> name (teamA\<lparr>madLudo := 20, total_score := 20, version := 1\<rparr>)
               = name ([teamB, teamA] ! k)
           \<and> (\<forall>g. g \<noteq> f \<longrightarrow>
                  getField g (teamA\<lparr>madLudo := 20, total_score := 20, version := 1\<rparr>)
                  = getField g ([teamB, teamA] ! k)))"
proof -
  have h: "atomicUpdateScore id [teamB, teamA] 1 ''madLudo'' (Num 20) None =
     ([teamB, teamA\<lparr>madLudo := 20, total_score := 20, version := 1\<rparr>],
      Inr (teamA\<lparr>madLudo := 20, total_score := 20, version := 1\<rparr>))"
    by (simp add: atomicUpdateScore_def atomicUpdateScore_read_def atomicUpdateScore_write_def
        lookupField_def scoreFields_def findById_def teamA_def teamB_def defaultTeam_def)
  from atomicUpdateScore_frame[OF h] show ?thesis using h by auto
qed

section \<open>Ranked snapshots\<close>

lemma map_ranked:
  "length xs = length ys \<Longrightarrow>
     map fst (map (\<lambda>(team, index). (team, index + 1)) (zip xs ys)) = xs
     \<and> map snd (map (\<lambda>(team, index). (team, index + 1)) (zip xs ys)) = map Suc ys"
  by (induction xs ys rule: list_induct2) simp_all

lemma getLeaderboard_teams:
  "map fst (getLeaderboard db) = sort_key (\<lambda>t. (- total_score t, createdAt t)) db"
  using map_ranked[of "sort_key (\<lambda>t. (- total_score t, createdAt t)) db" "[0..<length db]"]
  by (simp add: getLeaderboard_def Let_def del: map_map)

lemma getLeaderboard_ranks: "map snd (getLeaderboard db) = [1..<length db + 1]"
  using map_ranked[of "sort_key (\<lambda>t. (- total_score t, createdAt t)) db" "[0..<length db]"]
  by (simp add: getLeaderboard_def Let_def map_Suc_upt del: map_map)

lemma length_getLeaderboard: "length (getLeaderboard db) = length db"
  by (simp add: getLeaderboard_def Let_def)

lemma getLeaderboard_order:
  assumes "i < j" "j < length db"
  shows "total_score (fst (getLeaderboard db ! j)) < total_score (fst (getLeaderboard db ! i))
         \<or> (total_score (fst (getLeaderboard db ! j)) = total_score (fst (getLeaderboard db ! i))
            \<and> createdAt (fst (getLeaderboard db ! i)) \<le> createdAt (fst (getLeaderboard db ! j)))"
proof -
  let ?key = "\<lambda>t. (- total_score t, createdAt t)"
  let ?ts = "sort_key ?key db"
  have len: "length ?ts = length db" by simp
  have "sorted (map ?key ?ts)" by (rule sorted_sort_key)
  with assms len have "map ?key ?ts ! i \<le> map ?key ?ts ! j"
    by (simp add: sorted_iff_nth_mono_less del: sorted_sort_key)
  with assms len have le: "?key (?ts ! i) \<le> ?key (?ts ! j)" by simp
  have nth: "fst (getLeaderboard db ! k) = ?ts ! k" if "k < length db" for k
  proof -
    have "fst (getLeaderboard db ! k) = map fst (getLeaderboard db) ! k"
      using that by (simp add: length_getLeaderboard)
    then show ?thesis by (simp add: getLeaderboard_teams)
  qed
  from le show ?thesis
    using assms by (auto simp: nth less_eq_prod_def)
qed


lemma sent_connection:
  "sent (connection sock s) = sent s @ [(sock, LeaderboardUpdated (getLeaderboard (teams s)))]"
  by (simp add: connection_def socketEmit_def Let_def)

lemma sent_timerFire:
  "list_ex (\<lambda>(h', due). h' = h \<and> due \<le> now) (timers s) \<Longrightarrow>
     sent (timerFire id True now h s)
       = sent s @ map (\<lambda>c. (c, LeaderboardUpdated (getLeaderboard (teams s)))) (connected s)"
  by (simp add: timerFire_def ioEmit_def Let_def)

lemma example_ranking:
  "map (\<lambda>(t, r). (name t, total_score t, r))
       (getLeaderboard (fst (atomicUpdateScore id [teamB, teamA] 1 ''madLudo'' (Num 20) None)))
     = [(''A'', 20, 1), (''B'', 20, 2)]"
  by (simp add: atomicUpdateScore_def atomicUpdateScore_read_def atomicUpdateScore_write_def
      lookupField_def scoreFields_def findById_def teamA_def teamB_def defaultTeam_def
      getLeaderboard_def less_eq_prod_def)

text \<open>
  Claim C9. The ranked snapshot is computed from the collection on each call: it holds
  every document once; it is ordered by \<open>total\<close> descending, equal totals by creation
  time ascending; the rank is the 1-based position. \<open>GET /api/teams\<close> answers it, a new
  connection is sent it, and a due broadcast timer emits it to every connected socket,
  each from the collection as it is then. In the example (A with total 10 created first,
  B with total 20, A's field raised by 10), A is ranked before B.
\<close>

theorem getLeaderboard_ranked:
  "mset (map fst (getLeaderboard db)) = mset db
   \<and> map snd (getLeaderboard db) = [1..<length db + 1]
   \<and> (\<forall>i j. i < j \<and> j < length db \<longrightarrow>
          total_score (fst (getLeaderboard db ! j)) < total_score (fst (getLeaderboard db ! i))
          \<or> (total_score (fst (getLeaderboard db ! j)) = total_score (fst (getLeaderboard db ! i))
              \<and> createdAt (fst (getLeaderboard db ! i)) \<le> createdAt (fst (getLeaderboard db ! j))))
   \<and> getTeams s = JsonRanking (getLeaderboard (teams s))
   \<and> sent (connection sock s) = sent s @ [(sock, LeaderboardUpdated (getLeaderboard (teams s)))]
   \<and> (list_ex (\<lambda>(h', due). h' = h \<and> due \<le> now) (timers s) \<longrightarrow>
         sent (timerFire id True now h s)
           = sent s @ map (\<lambda>c. (c, LeaderboardUpdated (getLeaderboard (teams s)))) (connected s))
   \<and> map (\<lambda>(t, r). (name t, total_score t, r))
          (getLeaderboard (fst (atomicUpdateScore id [teamB, teamA] 1 ''madLudo'' (Num 20) None)))
        = [(''A'', 20, 1), (''B'', 20, 2)]"
proof -
  have "mset (map fst (getLeaderboard db)) = mset db"
    by (simp add: getLeaderboard_teams)
  moreover note getLeaderboard_ranks[of db]
  moreover have "\<forall>i j. i < j \<and> j < length db \<longrightarrow>
          total_score (fst (getLeaderboard db ! j)) < total_score (fst (getLeaderboard db ! i))
          \<or> (total_score (fst (getLeaderboard db ! j)) = total_score (fst (getLeaderboard db ! i))
              \<and> createdAt (fst (getLeaderboard db ! i)) \<le> createdAt (fst (getLeaderboard db ! j)))"
    using getLeaderboard_order by blast
  moreover have "getTeams s = JsonRanking (getLeaderboard (teams s))"
    by (simp add: getTeams_def)
  moreover note sent_connection[of sock s] sent_timerFire[of h now s] example_ranking
  ultimately show ?thesis by blast
qed

theorem getLeaderboard_ranked_witness:
  "(0::nat) < 1 \<and> 1 < length [teamB, teamA]
   \<and> (total_score (fst (getLeaderboard [teamB, teamA] ! 1))
        < total_score (fst (getLeaderboard [teamB, teamA] ! 0))
      \<or> (total_score (fst (getLeaderboard [teamB, teamA] ! 1))
           = total_score (fst (getLeaderboard [teamB, teamA] ! 0))
         \<and> createdAt (fst (getLeaderboard [teamB, teamA] ! 0))
           \<le> createdAt (fst (getLeaderboard [teamB, teamA] ! 1))))
   \<and> getLeaderboard [teamB, teamA] = [(teamB, 1), (teamA, 2)]
   \<and> list_ex (\<lambda>(h', due). h' = 0 \<and> due \<le> 100)
        (timers (connection 7 (debouncedBroadcast 0 (idleServer [teamB, teamA]))))
   \<and> sent (timerFire id True 100 0 (connection 7 (debouncedBroadcast 0 (idleServer [teamB, teamA]))))
       = [(7, LeaderboardUpdated [(teamB, 1), (teamA, 2)]),
          (7, LeaderboardUpdated [(teamB, 1), (teamA, 2)])]"
proof -
  let ?db = "[teamB, teamA]"
  let ?s = "connection 7 (debouncedBroadcast 0 (idleServer ?db))"
  note th = getLeaderboard_ranked[of ?db ?s 7 0 100]
  have lb: "getLeaderboard ?db = [(teamB, 1), (teamA, 2)]"
    by (simp add: getLeaderboard_def teamA_def teamB_def defaultTeam_def less_eq_prod_def)
  have due: "list_ex (\<lambda>(h', due). h' = 0 \<and> due \<le> 100) (timers ?s)"
    by (simp add: connection_def socketEmit_def debouncedBroadcast_def idleServer_def
        BROADCAST_DELAY_def Let_def)
  have st: "teams ?s = ?db" "connected ?s = [7]"
    "sent ?s = [(7, LeaderboardUpdated (getLeaderboard ?db))]"
    by (simp_all add: connection_def socketEmit_def debouncedBroadcast_def idleServer_def Let_def)
  from th due have "sent (timerFire id True 100 0 ?s)
      = sent ?s @ map (\<lambda>c. (c, LeaderboardUpdated (getLeaderboard (teams ?s)))) (connected ?s)"
    by blast
  then have fire: "sent (timerFire id True 100 0 ?s)
      = [(7, LeaderboardUpdated [(teamB, 1), (teamA, 2)]),
         (7, LeaderboardUpdated [(teamB, 1), (teamA, 2)])]"
    by (simp only: st lb) simp
  have ij: "(0::nat) < 1 \<and> 1 < length ?db" by simp
  with th have "total_score (fst (getLeaderboard ?db ! 1)) < total_score (fst (getLeaderboard ?db ! 0))
      \<or> (total_score (fst (getLeaderboard ?db ! 1)) = total_score (fst (getLeaderboard ?db ! 0))
         \<and> createdAt (fst (getLeaderboard ?db ! 0)) \<le> createdAt (fst (getLeaderboard ?db ! 1)))"
    by blast
  with ij lb due fire show ?thesis by blast
qed

section \<open>The update as a read followed by a conditional write\<close>

text \<open>
  \<open>atomicUpdateScore\<close> reads, then writes on condition that the version read is still
  there. Every atomic update gives the document it changes a greater version, so among
  atomic updates that condition is enough: whatever run of them lands between the read
  and the write, the call either ends in the conflict error with the collection as it
  found it, or does what the uninterrupted call does on the collection at the time of
  the write.
\<close>

lemma laterVersions_nth:
  "laterVersions db db' \<longleftrightarrow>
     (length db' = length db
      \<and> (\<forall>k < length db. team_id (db' ! k) = team_id (db ! k)
             \<and> version (db ! k) \<le> version (db' ! k)
             \<and> (version (db' ! k) = version (db ! k) \<longrightarrow> db' ! k = db ! k)))"
  by (auto simp: laterVersions_def list_all2_conv_all_nth)

lemma laterVersions_refl: "laterVersions db db"
  by (simp add: laterVersions_nth)

lemma laterVersions_trans:
  "laterVersions db db' \<Longrightarrow> laterVersions db' db'' \<Longrightarrow> laterVersions db db''"
  unfolding laterVersions_nth by (auto; force)

lemma laterVersions_step:
  "laterVersions db (fst (atomicUpdateScore id db teamId field newValue cv))"
proof (cases "atomicUpdateScore_read db teamId field newValue cv")
  case (Inl e)
  then show ?thesis by (simp add: atomicUpdateScore_def laterVersions_refl)
next
  case (Inr x)
  obtain f v cur where x: "x = (f, v, cur)" by (cases x)
  let ?p = "\<lambda>t. team_id t = teamId \<and> version t = version cur"
  let ?u = "\<lambda>t. (setField f v t)\<lparr>total_score := total_score t + (v - getField f cur),
                                  version := version t + 1\<rparr>"
  obtain db' r where fou: "findOneAndUpdate ?p ?u db = (db', r)" by (cases "findOneAndUpdate ?p ?u db")
  have res: "fst (atomicUpdateScore id db teamId field newValue cv) = db'"
    using Inr x fou
    by (simp add: atomicUpdateScore_def atomicUpdateScore_write_def Let_def split: option.splits)
  show ?thesis
  proof (cases r)
    case None
    with fou findOneAndUpdate_None[of ?p ?u db db'] have "db' = db" by simp
    with res show ?thesis by (simp add: laterVersions_refl)
  next
    case (Some t)
    with fou findOneAndUpdate_Some[of ?p ?u db db' t] obtain k where
      k: "k < length db" "t = ?u (db ! k)" "db' = db[k := t]" by blast
    have "laterVersions db (db[k := ?u (db ! k)])"
      using k(1) by (auto simp: laterVersions_nth nth_list_update setField_frame)
    with k res show ?thesis by simp
  qed
qed

lemma laterVersions_atomicUpdates: "laterVersions db (atomicUpdates calls db)"
proof (induction calls arbitrary: db)
  case Nil
  show ?case by (simp add: laterVersions_refl)
next
  case (Cons c calls)
  obtain i f v where c: "c = (i, f, v)" by (cases c)
  from laterVersions_trans[OF laterVersions_step Cons.IH] show ?case
    by (simp add: c)
qed

lemma laterVersions_ids: "laterVersions db db' \<Longrightarrow> map team_id db' = map team_id db"
  by (auto simp: laterVersions_nth intro: nth_equalityI)

lemma laterVersions_findById:
  assumes "laterVersions db db'" and "findById i db = Some cur"
  shows "\<exists>t. findById i db' = Some t \<and> version cur \<le> version t
              \<and> (version t = version cur \<longrightarrow> t = cur)"
proof -
  from assms(2) obtain k where k: "k < length db" "team_id (db ! k) = i" "cur = db ! k"
    "\<forall>j < k. team_id (db ! j) \<noteq> i"
    by (auto simp: findById_def find_Some_iff)
  from assms(1) have len: "length db' = length db"
    and same: "\<forall>j < length db. team_id (db' ! j) = team_id (db ! j)"
    by (simp_all add: laterVersions_nth)
  have "find (\<lambda>t. team_id t = i) db' = Some (db' ! k)"
    unfolding find_Some_iff using k same len
    by (intro exI[of _ k]) auto
  moreover from assms(1) k(1) have "version (db ! k) \<le> version (db' ! k)"
    "version (db' ! k) = version (db ! k) \<longrightarrow> db' ! k = db ! k"
    by (simp_all add: laterVersions_nth)
  ultimately show ?thesis using k(3) by (simp add: findById_def)
qed

lemma atomicUpdateScore_between_atomic_updates:
  assumes "distinct (map team_id db)"
    and "atomicUpdateScore_read db teamId field newValue cv = Inr (f, v, cur)"
  shows "atomicUpdateScore (atomicUpdates calls) db teamId field newValue cv
           = (atomicUpdates calls db, Inl Conflict)
         \<or> atomicUpdateScore (atomicUpdates calls) db teamId field newValue cv
           = atomicUpdateScore id (atomicUpdates calls db) teamId field newValue cv"
proof -
  let ?db' = "atomicUpdates calls db"
  let ?u = "\<lambda>c x. (setField f v x)\<lparr>total_score := total_score x + (v - getField f c),
                                    version := version x + 1\<rparr>"
  have lv: "laterVersions db ?db'" by (rule laterVersions_atomicUpdates)
  from assms(2) have rd: "lookupField field = Some f" "newValue = Num v" "0 \<le> v"
    "findById teamId db = Some cur"
    by (simp_all add: atomicUpdateScore_read_Inr)
  from laterVersions_findById[OF lv rd(4)] obtain t where
    t: "findById teamId ?db' = Some t" "version t = version cur \<longrightarrow> t = cur" by blast
  have dist: "distinct (map team_id ?db')"
    using assms(1) laterVersions_ids[OF lv] by simp
  have lhs: "atomicUpdateScore (atomicUpdates calls) db teamId field newValue cv =
      (case findOneAndUpdate (\<lambda>x. team_id x = teamId \<and> version x = version cur) (?u cur) ?db' of
         (db', None) \<Rightarrow> (db', Inl Conflict) | (db', Some result) \<Rightarrow> (db', Inr result))"
    using assms(2) by (simp add: atomicUpdateScore_def atomicUpdateScore_write_def Let_def)
  have rd': "atomicUpdateScore_read ?db' teamId field newValue cv = Inr (f, v, t)"
    using rd(1-3) t(1) by (simp add: atomicUpdateScore_read_Inr)
  have rhs: "atomicUpdateScore id ?db' teamId field newValue cv =
      (case findOneAndUpdate (\<lambda>x. team_id x = teamId \<and> version x = version t) (?u t) ?db' of
         (db', None) \<Rightarrow> (db', Inl Conflict) | (db', Some result) \<Rightarrow> (db', Inr result))"
    using rd' by (simp add: atomicUpdateScore_def atomicUpdateScore_write_def Let_def)
  show ?thesis
  proof (cases "version t = version cur")
    case True
    with t(2) have "t = cur" by simp
    with lhs rhs show ?thesis by simp
  next
    case False
    from findOneAndUpdate_by_id[OF dist t(1), of "\<lambda>x. version x = version cur" "?u cur"] False
    have "findOneAndUpdate (\<lambda>x. team_id x = teamId \<and> version x = version cur) (?u cur) ?db'
        = (?db', None)" by simp
    with lhs show ?thesis by simp
  qed
qed


lemma patchBetween_example:
  "patchBetween [defaultTeam 1 ''A'' 1] =
     [(defaultTeam 1 ''A'' 1)\<lparr>madLudo := 5, treasureHunt := 3, total_score := 8\<rparr>]"
  by (simp add: patchBetween_def twoFieldPatch_def idleServer_def defaultTeam_def
      store_defs patch_defs debouncedBroadcast_def Let_def)

text \<open>
  Claim C2: the update reads version and field value, compares the version and writes in
  one indivisible step, the delta computed from the snapshot of the version check. The
  code departs from it when a save of the PATCH route lands between the read and the
  write: the save has changed \<open>madLudo\<close> to 5 and \<open>total\<close> to 8 and left \<open>version\<close> at 0,
  the version check passes, and \<open>total\<close> grows by 10 (the new value minus the value read
  earlier), giving 18, where the update run as one step on the collection at the time
  of the write gives 13.
\<close>

theorem atomicUpdateScore_stale_delta:
  "findById 1 (patchBetween [defaultTeam 1 ''A'' 1])
     = Some ((defaultTeam 1 ''A'' 1)\<lparr>madLudo := 5, treasureHunt := 3, total_score := 8\<rparr>)
   \<and> version ((defaultTeam 1 ''A'' 1)\<lparr>madLudo := 5, treasureHunt := 3, total_score := 8\<rparr>)
       = version (defaultTeam 1 ''A'' 1)
   \<and> snd (atomicUpdateScore patchBetween [defaultTeam 1 ''A'' 1] 1 ''madLudo'' (Num 10) None)
       = Inr ((defaultTeam 1 ''A'' 1)
                \<lparr>madLudo := 10, treasureHunt := 3, total_score := 18, version := 1\<rparr>)
   \<and> snd (atomicUpdateScore id (patchBetween [defaultTeam 1 ''A'' 1]) 1 ''madLudo'' (Num 10) None)
       = Inr ((defaultTeam 1 ''A'' 1)
                \<lparr>madLudo := 10, treasureHunt := 3, total_score := 13, version := 1\<rparr>)
   \<and> total_score ((defaultTeam 1 ''A'' 1)
                \<lparr>madLudo := 10, treasureHunt := 3, total_score := 18, version := 1\<rparr>)
       \<noteq> total_score ((defaultTeam 1 ''A'' 1)\<lparr>madLudo := 5, treasureHunt := 3, total_score := 8\<rparr>)
          + (10 - madLudo ((defaultTeam 1 ''A'' 1)\<lparr>madLudo := 5, treasureHunt := 3, total_score := 8\<rparr>))"
  unfolding store_defs patchBetween_example by (simp add: defaultTeam_def)

section \<open>The currentVersion parameter\<close>

lemma atomicUpdateScore_Conflict_iff:
  "snd (atomicUpdateScore interleaved db teamId field newValue cv) = Inl Conflict \<longleftrightarrow>
     (\<exists>f v cur. lookupField field = Some f \<and> newValue = Num v \<and> 0 \<le> v
        \<and> findById teamId db = Some cur
        \<and> \<not> list_ex (\<lambda>t. team_id t = teamId \<and> version t = version cur) (interleaved db))"
proof (cases "atomicUpdateScore_read db teamId field newValue cv")
  case (Inl e)
  then have e: "e \<noteq> Conflict"
    by (auto simp: atomicUpdateScore_read_def split: option.splits jsnumber.splits if_splits)
  have "\<not> (\<exists>f v cur. lookupField field = Some f \<and> newValue = Num v \<and> 0 \<le> v
        \<and> findById teamId db = Some cur)"
  proof
    assume "\<exists>f v cur. lookupField field = Some f \<and> newValue = Num v \<and> 0 \<le> v
        \<and> findById teamId db = Some cur"
    then obtain f v cur where "atomicUpdateScore_read db teamId field newValue cv = Inr (f, v, cur)"
      unfolding atomicUpdateScore_read_Inr by blast
    with Inl show False by simp
  qed
  with e Inl show ?thesis by (auto simp: atomicUpdateScore_def)
next
  case (Inr x)
  obtain f v cur where x: "x = (f, v, cur)" by (cases x)
  with Inr have rd: "lookupField field = Some f" "newValue = Num v" "0 \<le> v"
    "findById teamId db = Some cur"
    by (simp_all add: atomicUpdateScore_read_Inr)
  let ?p = "\<lambda>t. team_id t = teamId \<and> version t = version cur"
  let ?u = "\<lambda>x. (setField f v x)\<lparr>total_score := total_score x + (v - getField f cur),
                                  version := version x + 1\<rparr>"
  have unfold: "atomicUpdateScore interleaved db teamId field newValue cv =
      (case findOneAndUpdate ?p ?u (interleaved db) of
         (db', None) \<Rightarrow> (db', Inl Conflict) | (db', Some result) \<Rightarrow> (db', Inr result))"
    using Inr x by (simp add: atomicUpdateScore_def atomicUpdateScore_write_def Let_def)
  show ?thesis
  proof (cases "list_ex ?p (interleaved db)")
    case True
    from findOneAndUpdate_match[OF True, of ?u] obtain db' r where
      "findOneAndUpdate ?p ?u (interleaved db) = (db', Some r)" by blast
    then have "atomicUpdateScore interleaved db teamId field newValue cv = (db', Inr r)"
      by (simp add: unfold)
    then have "snd (atomicUpdateScore interleaved db teamId field newValue cv) \<noteq> Inl Conflict"
      by simp
    with True rd show ?thesis by auto
  next
    case False
    from findOneAndUpdate_no_match[OF False, of ?u]
    have "atomicUpdateScore interleaved db teamId field newValue cv = (interleaved db, Inl Conflict)"
      by (simp add: unfold)
    then have "snd (atomicUpdateScore interleaved db teamId field newValue cv) = Inl Conflict"
      by simp
    with False rd show ?thesis by blast
  qed
qed

lemma atomicUpdateScore_Conflict_unchanged:
  "snd (atomicUpdateScore interleaved db teamId field newValue cv) = Inl Conflict \<Longrightarrow>
     fst (atomicUpdateScore interleaved db teamId field newValue cv) = interleaved db"
  by (auto simp: atomicUpdateScore_def atomicUpdateScore_write_def Let_def
      atomicUpdateScore_read_def
      split: sum.splits prod.splits option.splits jsnumber.splits if_splits
      dest: findOneAndUpdate_None)

text \<open>
  Claim C8, amended. The outcome of \<open>atomicUpdateScore\<close> is the same for every value of
  its \<open>currentVersion\<close> argument. It ends in the conflict error exactly when field, value
  and team are valid and no document of that identity has, at the time of the write,
  the version the function itself read; then it changes nothing. With nothing written
  between its read and its write it never ends in the conflict error.
\<close>

theorem atomicUpdateScore_currentVersion_unused:
  "atomicUpdateScore interleaved db teamId field newValue currentVersion
     = atomicUpdateScore interleaved db teamId field newValue currentVersion'
   \<and> (snd (atomicUpdateScore interleaved db teamId field newValue currentVersion) = Inl Conflict
        \<longleftrightarrow> (\<exists>f v cur. lookupField field = Some f \<and> newValue = Num v \<and> 0 \<le> v
               \<and> findById teamId db = Some cur
               \<and> \<not> list_ex (\<lambda>t. team_id t = teamId \<and> version t = version cur) (interleaved db)))
   \<and> (snd (atomicUpdateScore interleaved db teamId field newValue currentVersion) = Inl Conflict
        \<longrightarrow> fst (atomicUpdateScore interleaved db teamId field newValue currentVersion)
              = interleaved db)
   \<and> snd (atomicUpdateScore id db teamId field newValue currentVersion) \<noteq> Inl Conflict"
proof -
  have same: "atomicUpdateScore interleaved db teamId field newValue currentVersion
     = atomicUpdateScore interleaved db teamId field newValue currentVersion'"
    by (simp add: atomicUpdateScore_def atomicUpdateScore_read_def)
  have seq: "snd (atomicUpdateScore id db teamId field newValue currentVersion) \<noteq> Inl Conflict"
  proof
    assume "snd (atomicUpdateScore id db teamId field newValue currentVersion) = Inl Conflict"
    then obtain cur where cur: "findById teamId db = Some cur"
      and no: "\<not> list_ex (\<lambda>t. team_id t = teamId \<and> version t = version cur) (id db)"
      unfolding atomicUpdateScore_Conflict_iff by blast
    from findById_Some_set[OF cur] no show False by (auto simp: list_ex_iff)
  qed
  from same seq atomicUpdateScore_Conflict_iff[of interleaved db teamId field newValue currentVersion]
    atomicUpdateScore_Conflict_unchanged[of interleaved db teamId field newValue currentVersion]
  show ?thesis by blast
qed

theorem atomicUpdateScore_currentVersion_unused_witness:
  "snd (atomicUpdateScore otherUpdate [defaultTeam 1 ''A'' 1] 1 ''madLudo'' (Num 10) (Some 0))
     = Inl Conflict
   \<and> fst (atomicUpdateScore otherUpdate [defaultTeam 1 ''A'' 1] 1 ''madLudo'' (Num 10) (Some 0))
     = otherUpdate [defaultTeam 1 ''A'' 1]
   \<and> atomicUpdateScore otherUpdate [defaultTeam 1 ''A'' 1] 1 ''madLudo'' (Num 10) (Some 0)
     = atomicUpdateScore otherUpdate [defaultTeam 1 ''A'' 1] 1 ''madLudo'' (Num 10) None"
proof -
  have h: "snd (atomicUpdateScore otherUpdate [defaultTeam 1 ''A'' 1] 1 ''madLudo'' (Num 10) (Some 0))
     = Inl Conflict"
    unfolding otherUpdate_def store_defs by (simp add: defaultTeam_def)
  from atomicUpdateScore_currentVersion_unused[of otherUpdate "[defaultTeam 1 ''A'' 1]" 1
      "''madLudo''" "Num 10" "Some 0" None] h
  show ?thesis by blast
qed

text \<open>
  The claim as stated fails: the stored version is 0, the supplied version is 7, and
  the update commits.
\<close>

theorem atomicUpdateScore_expectedVersion_counterexample:
  "version (defaultTeam 1 ''A'' 1) = 0
   \<and> atomicUpdateScore id [defaultTeam 1 ''A'' 1] 1 ''madLudo'' (Num 10) (Some 7)
       = ([(defaultTeam 1 ''A'' 1)\<lparr>madLudo := 10, total_score := 10, version := 1\<rparr>],
          Inr ((defaultTeam 1 ''A'' 1)\<lparr>madLudo := 10, total_score := 10, version := 1\<rparr>))"
  by (simp add: store_defs defaultTeam_def)

section \<open>The save branch and the version\<close>

lemma version_findOneAndUpdate:
  "(\<And>t. version (u t) = version t) \<Longrightarrow>
     map version (fst (findOneAndUpdate p u db)) = map version db"
  by (induction db) (auto split: prod.splits)

lemma version_writeModified: "version (writeModified loaded doc stored) = version stored"
  by (simp add: writeModified_def)

lemma patchSave_keeps_versions:
  "map version (teams (fst (patchSave now ident b s))) = map version (teams s)"
  by (auto simp: patchSave_def save_def debouncedBroadcast_def Let_def
      version_findOneAndUpdate version_writeModified
      split: option.splits sum.splits prod.splits)

text \<open>
  Claim C4: every committed mutation increments \<open>version\<close> by one, on every write path.
  The code departs from it: the second branch of the PATCH route commits a change of two
  score fields, and a change of the name, answers 200, and leaves \<open>version\<close> at the value
  it had (\<open>patchSave_keeps_versions\<close>: on every input), whereas the atomic method adds
  one.
\<close>

theorem patchTeam_version_unchanged:
  "patchTeam id 0 1 twoFieldPatch (idleServer [defaultTeam 1 ''A'' 1])
     = (debouncedBroadcast 0
          (idleServer [(defaultTeam 1 ''A'' 1)\<lparr>madLudo := 5, treasureHunt := 3, total_score := 8\<rparr>]),
        Json 200 ((defaultTeam 1 ''A'' 1)\<lparr>madLudo := 5, treasureHunt := 3, total_score := 8\<rparr>))
   \<and> patchTeam id 0 1 renamePatch (idleServer [defaultTeam 1 ''A'' 1])
     = (debouncedBroadcast 0 (idleServer [(defaultTeam 1 ''A'' 1)\<lparr>name := ''Z''\<rparr>]),
        Json 200 ((defaultTeam 1 ''A'' 1)\<lparr>name := ''Z''\<rparr>))
   \<and> version ((defaultTeam 1 ''A'' 1)\<lparr>madLudo := 5, treasureHunt := 3, total_score := 8\<rparr>)
       = version (defaultTeam 1 ''A'' 1)
   \<and> version ((defaultTeam 1 ''A'' 1)\<lparr>name := ''Z''\<rparr>) = version (defaultTeam 1 ''A'' 1)"
  by (simp add: twoFieldPatch_def renamePatch_def idleServer_def defaultTeam_def
      store_defs patch_defs debouncedBroadcast_def Let_def)

section \<open>The total and the sum of the fields\<close>

text \<open>
  Run with nothing in between, each write path keeps \<open>total\<close> equal to the sum of the
  five fields. Both facts rest on arithmetic and are stated where the code's arithmetic
  is exact: stored scores and new values are whole numbers between 0 and \<open>2^50\<close>.
\<close>

lemma atomicUpdateScore_sequential_keeps_total:
  assumes "\<forall>t \<in> set db. total_score t = sumFields t"
    and "\<forall>t \<in> set db. exactTeam t" and "exactValue newValue"
  shows "\<forall>t \<in> set (fst (atomicUpdateScore id db teamId field newValue cv)).
           total_score t = sumFields t"
proof (cases "atomicUpdateScore_read db teamId field newValue cv")
  case (Inl e)
  with assms(1) show ?thesis by (simp add: atomicUpdateScore_def)
next
  case (Inr x)
  obtain f v cur where x: "x = (f, v, cur)" by (cases x)
  with Inr have cur: "findById teamId db = Some cur" by (simp add: atomicUpdateScore_read_Inr)
  let ?u = "\<lambda>t. (setField f v t)\<lparr>total_score := total_score t + (v - getField f cur),
                                  version := version t + 1\<rparr>"
  from findById_Some_set[OF cur] have in_db: "cur \<in> set db" "team_id cur = teamId" by simp_all
  from find_first[of "\<lambda>t. team_id t = teamId" db cur cur "\<lambda>t. version t = version cur" ?u]
    cur in_db
  obtain db' where db': "findOneAndUpdate (\<lambda>t. team_id t = teamId \<and> version t = version cur) ?u db
      = (db', Some (?u cur))" "set db' \<subseteq> insert (?u cur) (set db)"
    by (auto simp: findById_def)
  have "total_score (?u cur) = sumFields (?u cur)"
    using assms(1) in_db(1) by (cases f) (simp_all add: sumFields_def)
  with db'(2) assms(1) have "\<forall>t \<in> set db'. total_score t = sumFields t" by auto
  moreover have "fst (atomicUpdateScore id db teamId field newValue cv) = db'"
    using Inr x db'(1) by (simp add: atomicUpdateScore_def atomicUpdateScore_write_def Let_def)
  ultimately show ?thesis by simp
qed

lemma assignScores_total:
  "assignScores kvs t = Inr d \<Longrightarrow> total_score d = total_score t \<and> team_id d = team_id t"
  by (induction kvs t rule: assignScores.induct)
     (auto simp: setField_frame split: option.splits jsnumber.splits if_splits)

lemma assignUpdates_total:
  "assignUpdates b t = Inr d \<Longrightarrow> total_score d = total_score t \<and> team_id d = team_id t"
  by (auto simp: assignUpdates_def dest: assignScores_total split: option.splits)

lemma preSave_total:
  "total_score loaded = sumFields loaded \<Longrightarrow> total_score doc = total_score loaded \<Longrightarrow>
     total_score (preSave False loaded doc) = sumFields (preSave False loaded doc)"
  by (auto simp: preSave_def isModified_def scoreFields_def sumFields_def)

lemma writeModified_loaded:
  "total_score (writeModified l d l) = total_score d"
  "sumFields (writeModified l d l) = sumFields d"
  by (auto simp: writeModified_def sumFields_def)

lemma patchSave_sequential_keeps_total:
  assumes inv: "\<forall>t \<in> set (teams s). total_score t = sumFields t"
    and "\<forall>t \<in> set (teams s). exactTeam t"
    and "list_all (\<lambda>(key, value). exactValue value) (bodyScores b)"
  shows "\<forall>t \<in> set (teams (fst (patchSave now ident b s))). total_score t = sumFields t"
proof (cases "findById ident (teams s)")
  case None
  with inv show ?thesis by (simp add: patchSave_def)
next
  case (Some team)
  from findById_Some_set[OF Some] have team: "team \<in> set (teams s)" "team_id team = ident"
    by simp_all
  show ?thesis
  proof (cases "assignUpdates b team")
    case (Inl e)
    with Some inv show ?thesis by (simp add: patchSave_def)
  next
    case (Inr doc)
    from assignUpdates_total[OF Inr] have doc: "total_score doc = total_score team"
      "team_id doc = ident" using team(2) by simp_all
    let ?doc' = "preSave False team doc"
    have id': "team_id ?doc' = ident" using doc(2) by (simp add: preSave_def)
    have ok: "total_score ?doc' = sumFields ?doc'"
      using preSave_total[of team doc] inv team(1) doc(1) by simp
    show ?thesis
    proof (cases "save (teams s) team doc")
      case (Inl e)
      with Some Inr inv show ?thesis by (simp add: patchSave_def)
    next
      case (Inr r)
      then obtain db' saved where r: "r = (db', saved)" by (cases r)
      with Inr have db': "db' = fst (findOneAndUpdate (\<lambda>t. team_id t = ident)
                          (writeModified team ?doc') (teams s))"
        by (auto simp: save_def Let_def id' split: if_splits)
      from find_first[of "\<lambda>t. team_id t = ident" "teams s" team team "\<lambda>t. True"
          "writeModified team ?doc'"] Some team
      obtain db'' where "findOneAndUpdate (\<lambda>t. team_id t = ident) (writeModified team ?doc') (teams s)
          = (db'', Some (writeModified team ?doc' team))"
        "set db'' \<subseteq> insert (writeModified team ?doc' team) (set (teams s))"
        by (auto simp: findById_def)
      with db' have sub: "set db' \<subseteq> insert (writeModified team ?doc' team) (set (teams s))"
        by simp
      have "total_score (writeModified team ?doc' team) = sumFields (writeModified team ?doc' team)"
        using ok by (simp add: writeModified_loaded)
      with sub inv have "\<forall>t \<in> set db'. total_score t = sumFields t" by auto
      moreover have "teams (fst (patchSave now ident b s)) = db'"
        using Some \<open>assignUpdates b team = Inr doc\<close> Inr r
        by (simp add: patchSave_def debouncedBroadcast_def Let_def)
      ultimately show ?thesis by simp
    qed
  qed
qed

text \<open>
  Claim C1: in every state a reader can observe, \<open>total\<close> is the sum of the five score
  fields. The code departs from it when the two write paths interleave. Socket 9 asks
  for \<open>madLudo = 10\<close> on a team with all fields 0; between the read and the write of its
  update a PATCH request saves \<open>madLudo = 5, treasureHunt = 3\<close>
  (total 8, version still 0). The write finds the version unchanged, commits and reports
  success; the stored document, which every later snapshot shows, has total 18 and
  fields that sum to 13.
\<close>

theorem total_not_sum_after_interleaved_save:
  "total_score (defaultTeam 1 ''A'' 1) = sumFields (defaultTeam 1 ''A'' 1)
   \<and> teams (fst (updateScore patchRequest 0 9 madLudoTo10 (idleServer [defaultTeam 1 ''A'' 1])))
       = [(defaultTeam 1 ''A'' 1)\<lparr>madLudo := 10, treasureHunt := 3, total_score := 18, version := 1\<rparr>]
   \<and> snd (updateScore patchRequest 0 9 madLudoTo10 (idleServer [defaultTeam 1 ''A'' 1]))
       = (0, Resolved)
   \<and> getLeaderboard
         (teams (fst (updateScore patchRequest 0 9 madLudoTo10 (idleServer [defaultTeam 1 ''A'' 1]))))
       = [((defaultTeam 1 ''A'' 1)
             \<lparr>madLudo := 10, treasureHunt := 3, total_score := 18, version := 1\<rparr>, 1)]
   \<and> total_score ((defaultTeam 1 ''A'' 1)
         \<lparr>madLudo := 10, treasureHunt := 3, total_score := 18, version := 1\<rparr>) = 18
   \<and> sumFields ((defaultTeam 1 ''A'' 1)
         \<lparr>madLudo := 10, treasureHunt := 3, total_score := 18, version := 1\<rparr>) = 13"
  by (simp add: patchRequest_def madLudoTo10_def twoFieldPatch_def defaultTeam_def
      store_defs patch_defs server_defs getLeaderboard_def Let_def)

section \<open>The retry of a conflicting update\<close>

text \<open>Whatever the error, the \<open>catch\<close> block ends in ReferenceError: no retry is ever set.\<close>

lemma catchBlock_rejects: "snd (snd (catchBlock err retryCount s)) = Rejected ReferenceError"
  by (simp add: catchBlock_def Let_def)

text \<open>
  Claim C3: a request that conflicts on every attempt is attempted \<open>MAX_RETRIES + 1\<close>
  times and then answered with one failure message. The code departs from it. The first
  attempt of socket 9 conflicts (socket 8 committed in between). The handler makes that
  one attempt: the \<open>catch\<close> block logs it, increments
  \<open>retryCount\<close> to 1 and raises ReferenceError; the promise is rejected, no retry is
  set, nothing is sent to socket 9, and the process ends on the unhandled rejection.
\<close>

theorem updateScore_conflict_one_attempt:
  "snd (updateScore otherClient 0 9 madLudoTo10 (idleServer [defaultTeam 1 ''A'' 1]))
     = (1, Rejected ReferenceError)
   \<and> console (fst (updateScore otherClient 0 9 madLudoTo10 (idleServer [defaultTeam 1 ''A'' 1])))
     = [ScoreUpdated 1, ErrorUpdating 1 Conflict]
   \<and> filter (\<lambda>(sock, m). sock = 9)
        (sent (fst (updateScore otherClient 0 9 madLudoTo10 (idleServer [defaultTeam 1 ''A'' 1]))))
     = []
   \<and> teams (fst (updateScore otherClient 0 9 madLudoTo10 (idleServer [defaultTeam 1 ''A'' 1])))
     = [(defaultTeam 1 ''A'' 1)\<lparr>treasureHunt := 3, total_score := 3, version := 1\<rparr>]
   \<and> exited (fst (updateScore otherClient 0 9 madLudoTo10 (idleServer [defaultTeam 1 ''A'' 1])))"
  by (simp add: otherClient_def madLudoTo10_def defaultTeam_def
      store_defs server_defs Let_def)

section \<open>The broadcast debouncer\<close>

text \<open>
  While \<open>broadcastTimeout\<close> holds the handle of the only pending timer, a call leaves
  exactly one timer, due \<open>BROADCAST_DELAY\<close> after the call; and a timer that fires sets
  the variable to null whether the broadcast succeeds or not, whatever runs meanwhile.
\<close>

lemma debouncedBroadcast_single:
  assumes "timers s = [] \<or> (\<exists>h d. timers s = [(h, d)] \<and> broadcastTimeout s = Some h)"
  shows "timers (debouncedBroadcast now s) = [(nextTimer s, now + BROADCAST_DELAY)]
         \<and> broadcastTimeout (debouncedBroadcast now s) = Some (nextTimer s)"
  using assms
  by (auto simp: debouncedBroadcast_def clearTimeout_def Let_def split: option.splits)

lemma timerFire_clears:
  "list_ex (\<lambda>(h', due). h' = h \<and> due \<le> now) (timers s) \<Longrightarrow>
     broadcastTimeout (timerFire during dbOk now h s) = None"
  by (simp add: timerFire_def Let_def)

text \<open>
  Claim C6: at most one broadcast is scheduled at any instant, a call resetting the
  pending one. The code departs from it when a call arrives while a fired callback is
  still waiting. A broadcast is scheduled at 0 and its timer fires at 100; while the callback
  awaits the broadcast, \<open>debouncedBroadcast\<close> is called again and sets the timer due at
  200; the callback then sets \<open>broadcastTimeout\<close> to null. The call at 150 finds null,
  clears nothing and sets a timer due at 250: two broadcasts are scheduled at once.
\<close>

theorem debouncedBroadcast_two_timers:
  "broadcastTimeout (timerFire (debouncedBroadcast 100) True 100 0
       (debouncedBroadcast 0 (idleServer []))) = None
   \<and> timers (timerFire (debouncedBroadcast 100) True 100 0
       (debouncedBroadcast 0 (idleServer []))) = [(1, 200)]
   \<and> timers (debouncedBroadcast 150
       (timerFire (debouncedBroadcast 100) True 100 0
          (debouncedBroadcast 0 (idleServer [])))) = [(1, 200), (2, 250)]"
  by (simp add: server_defs Let_def)

section \<open>Disconnection\<close>

text \<open>
  The disconnect handler changes the connection count and the set of connected sockets,
  and neither the collection nor the timers.
\<close>

lemma disconnect_keeps:
  "teams (disconnect sock s) = teams s"
  "timers (disconnect sock s) = timers s"
  "broadcastTimeout (disconnect sock s) = broadcastTimeout s"
  by (simp_all add: disconnect_def)

section \<open>Validation\<close>












end
